theory Spec2Isabelle
  imports Main
begin

section \<open>pydumbinit: the signal proxy and the reaper\<close>

text \<open>
  A shallow embedding of \<^verbatim>\<open>src/pydumbinit.py\<close>. The module keeps its state in
  module-level globals (\<^verbatim>\<open>SIGMAP\<close>, \<^verbatim>\<open>IGNORED_SIGMAP\<close>, \<^verbatim>\<open>child_pid\<close>,
  \<^verbatim>\<open>use_setsid\<close>) and acts on the operating system through \<^verbatim>\<open>os.kill\<close>,
  \<^verbatim>\<open>os.waitpid\<close> and the logger. The globals, what the operating system answers and a
  trace of the calls made are the fields of one record that every function takes and
  returns.
\<close>

subsection \<open>Constants\<close>

definition MAXSIG :: int where "MAXSIG = 31"

text \<open>
  The members of Python's \<^verbatim>\<open>signal\<close> module, with their Linux numbers; the source itself
  writes \<^verbatim>\<open>{9, 19}\<close> for the two signals that cannot be caught.
\<close>

definition SIGHUP :: int where "SIGHUP = 1"
definition SIGKILL :: int where "SIGKILL = 9"
definition SIGTERM :: int where "SIGTERM = 15"
definition SIGCHLD :: int where "SIGCHLD = 17"
definition SIGCONT :: int where "SIGCONT = 18"
definition SIGSTOP :: int where "SIGSTOP = 19"
definition SIGTSTP :: int where "SIGTSTP = 20"
definition SIGTTIN :: int where "SIGTTIN = 21"
definition SIGTTOU :: int where "SIGTTOU = 22"

lemmas signal_defs =
  SIGHUP_def SIGKILL_def SIGTERM_def SIGCHLD_def SIGCONT_def SIGSTOP_def
  SIGTSTP_def SIGTTIN_def SIGTTOU_def

subsection \<open>State\<close>

datatype error =
  KeyError | TypeError | ValueError | AssertionError | ChildProcessError

datatype level = INFO | WARNING | ERROR

text \<open>
  The status word of \<^verbatim>\<open>os.waitpid\<close>, as the macros read it: \<open>Exited c\<close> has
  \<^verbatim>\<open>WIFEXITED\<close> and \<^verbatim>\<open>WEXITSTATUS = c\<close>, \<open>Signaled g\<close> has \<^verbatim>\<open>WIFSIGNALED\<close> and
  \<^verbatim>\<open>WTERMSIG = g\<close>, \<open>Stopped g\<close> has neither.
\<close>

datatype wstatus = Exited int | Signaled int | Stopped int

record state =
  SIGMAP :: "int \<rightharpoonup> int"
  IGNORED_SIGMAP :: "int \<rightharpoonup> bool"
  child_pid :: int
  use_setsid :: int
  getpid :: int
  zombies :: "(int \<times> wstatus) list"
  living :: bool
  kills :: "(int \<times> int) list"
  logged :: "(level \<times> string \<times> int list) list"

text \<open>
  \<open>getpid\<close> is what \<^verbatim>\<open>os.getpid()\<close> answers. \<open>zombies\<close> are the dead descendants not
  yet waited for, in the order \<^verbatim>\<open>os.waitpid(-1, os.WNOHANG)\<close> hands them out;
  \<open>living\<close> says whether some child is still alive, which decides between the answer
  \<^verbatim>\<open>(0, 0)\<close> and \<^verbatim>\<open>ChildProcessError\<close> once the zombies are used up. \<open>kills\<close> is
  the trace of the \<^verbatim>\<open>os.kill(pid, sig)\<close> calls, \<open>logged\<close> the trace of the logger
  calls: the level, the format string of the source and the values it interpolates.
\<close>

text \<open>
  A call returns a value, leaves through \<^verbatim>\<open>sys.exit(code)\<close>, or raises.
\<close>

datatype 'a result = Return 'a state | Exit int state | Raise error state

fun final :: "'a result \<Rightarrow> state" where
  "final (Return _ s) = s"
| "final (Exit _ s) = s"
| "final (Raise _ s) = s"

text \<open>The module as it is after import (lines 14 to 19).\<close>

definition initial :: "int \<Rightarrow> (int \<times> wstatus) list \<Rightarrow> bool \<Rightarrow> state" where
  "initial me zs alive =
     \<lparr> SIGMAP = (\<lambda>k. if 1 \<le> k \<and> k < MAXSIG + 1 then Some (- 1) else None),
       IGNORED_SIGMAP = (\<lambda>k. if 0 \<le> k \<and> k < MAXSIG then Some False else None),
       child_pid = - 1,
       use_setsid = 1,
       getpid = me,
       zombies = zs,
       living = alive,
       kills = [],
       logged = [] \<rparr>"

subsection \<open>The operating system and the logger\<close>

definition logger_call :: "level \<Rightarrow> string \<Rightarrow> int list \<Rightarrow> state \<Rightarrow> state" where
  "logger_call l fmt args s = s\<lparr>logged := logged s @ [(l, fmt, args)]\<rparr>"

definition os_kill :: "int \<Rightarrow> int \<Rightarrow> state \<Rightarrow> state" where
  "os_kill p signum s = s\<lparr>kills := kills s @ [(p, signum)]\<rparr>"

definition os_waitpid :: "state \<Rightarrow> (int \<times> wstatus) result" where
  "os_waitpid s =
     (case zombies s of
        z # zs \<Rightarrow> Return z (s\<lparr>zombies := zs\<rparr>)
      | [] \<Rightarrow> if living s then Return (0, Exited 0) s else Raise ChildProcessError s)"

subsection \<open>The rewrite table and the forwarder\<close>

text \<open>
  \<^verbatim>\<open>translate_signal\<close> (lines 24 to 30). \<^verbatim>\<open>SIGMAP.get(signum, -1)\<close> never raises;
  \<^verbatim>\<open>SIGMAP[signum]\<close> raises \<^verbatim>\<open>KeyError\<close> on a missing key.
\<close>

definition translate_signal :: "int \<Rightarrow> state \<Rightarrow> int result" where
  "translate_signal signum s =
     (if (case SIGMAP s signum of None \<Rightarrow> - 1 | Some v \<Rightarrow> v) > 0 then
        (case SIGMAP s signum of
           None \<Rightarrow> Raise KeyError s
         | Some res \<Rightarrow>
             Return res
               (logger_call INFO ''Translating signal {signum} to {res}'' [signum, res] s))
      else Return signum s)"

text \<open>\<^verbatim>\<open>forward_signal\<close> (lines 33 to 39).\<close>

definition forward_signal :: "int \<Rightarrow> state \<Rightarrow> unit result" where
  "forward_signal signum0 s =
     (case translate_signal signum0 s of
        Return signum s1 \<Rightarrow>
          if signum \<noteq> 0 then
            Return ()
              (logger_call INFO ''Forwarded signal {signum} to children.'' [signum]
                 (os_kill (if use_setsid s1 \<noteq> 0 then - child_pid s1 else child_pid s1)
                    signum s1))
          else
            Return ()
              (logger_call INFO ''Not forwarding signal {signum} to children (ignored).''
                 [signum] s1)
      | Exit c s1 \<Rightarrow> Exit c s1
      | Raise e s1 \<Rightarrow> Raise e s1)"

subsection \<open>The signal handler\<close>

text \<open>
  Lines 50 to 60, the exit status of one reaped descendant. The second message
  interpolates \<^verbatim>\<open>exit_status - 128\<close>.
\<close>

definition derive_exit_status :: "int \<Rightarrow> wstatus \<Rightarrow> state \<Rightarrow> int result" where
  "derive_exit_status killed_pid status s =
     (case status of
        Exited c \<Rightarrow>
          Return c
            (logger_call INFO
               ''A child with PID {killed_pid} exited with exit status {exit_status}.''
               [killed_pid, c] s)
      | Signaled g \<Rightarrow>
          Return (128 + g)
            (logger_call INFO
               ''A child with PID {killed_pid} was terminated by signal {exit_status - 128}.''
               [killed_pid, (128 + g) - 128] s)
      | Stopped g \<Rightarrow> Raise AssertionError s)"

text \<open>
  The \<^verbatim>\<open>while killed_pid > 0\<close> loop of lines 49 to 67, entered with the answer of
  the \<^verbatim>\<open>os.waitpid\<close> call before it.
\<close>

function reap_loop :: "int \<Rightarrow> wstatus \<Rightarrow> state \<Rightarrow> unit result" where
  "reap_loop killed_pid status s =
     (if killed_pid > 0 then
        (case derive_exit_status killed_pid status s of
           Return exit_status s1 \<Rightarrow>
             if killed_pid = child_pid s1 then
               (case forward_signal SIGTERM s1 of
                  Return u s2 \<Rightarrow>
                    Exit exit_status
                      (logger_call INFO ''Child exited with status {exit_status}. Goodbye.''
                         [exit_status] s2)
                | Exit c s2 \<Rightarrow> Exit c s2
                | Raise e s2 \<Rightarrow> Raise e s2)
             else
               (case os_waitpid s1 of
                  Return z s2 \<Rightarrow> reap_loop (fst z) (snd z) s2
                | Exit c s2 \<Rightarrow> Exit c s2
                | Raise e s2 \<Rightarrow> Raise e s2)
         | Exit c s1 \<Rightarrow> Exit c s1
         | Raise e s1 \<Rightarrow> Raise e s1)
      else Return () s)"
  by pat_completeness auto
termination
proof (relation "measure (\<lambda>(p, st, s). 2 * length (zombies s) + (if p > 0 then 1 else 0))")
  show "wf (measure (\<lambda>(p, st, s). 2 * length (zombies s) + (if p > 0 then 1 else 0)))"
    by simp
next
  fix killed_pid :: int and status :: wstatus and s :: state
    and x11 :: int and x12 :: state and x11a :: "int \<times> wstatus" and x12a :: state
  assume pos: "0 < killed_pid"
    and d: "derive_exit_status killed_pid status s = Return x11 x12"
    and w: "os_waitpid x12 = Return x11a x12a"
  from d have z: "zombies x12 = zombies s"
    by (auto simp: derive_exit_status_def logger_call_def split: wstatus.splits)
  from w have "length (zombies x12a) < length (zombies x12)
      \<or> (zombies x12a = zombies x12 \<and> fst x11a = 0)"
    by (auto simp: os_waitpid_def split: list.splits if_splits)
  with pos z
  show "((fst x11a, snd x11a, x12a), (killed_pid, status, s))
      \<in> measure (\<lambda>(p, st, s). 2 * length (zombies s) + (if p > 0 then 1 else 0))"
    by auto
qed

text \<open>\<^verbatim>\<open>handle_signal\<close> (lines 42 to 72).\<close>

definition handle_signal :: "int \<Rightarrow> state \<Rightarrow> unit result" where
  "handle_signal signum s0 =
     (let s = logger_call INFO ''Received signal {signum}'' [signum] s0 in
      case IGNORED_SIGMAP s signum of
        None \<Rightarrow> Raise KeyError s
      | Some True \<Rightarrow>
          Return ()
            ((logger_call INFO ''Ignoring tty hand-off signal {signum}'' [signum] s)
               \<lparr>IGNORED_SIGMAP := (IGNORED_SIGMAP s)(signum \<mapsto> False)\<rparr>)
      | Some False \<Rightarrow>
          if signum = SIGCHLD then
            (case os_waitpid s of
               Return z s1 \<Rightarrow> reap_loop (fst z) (snd z) s1
             | Exit c s1 \<Rightarrow> Exit c s1
             | Raise e s1 \<Rightarrow> Raise e s1)
          else
            (case forward_signal signum s of
               Return u s1 \<Rightarrow>
                 if signum \<in> {SIGTSTP, SIGTTOU, SIGTTIN} then
                   Return ()
                     (os_kill (getpid s1) SIGSTOP
                        (logger_call INFO ''Suspending self due to TTY signal.'' [] s1))
                 else Return () s1
             | Exit c s1 \<Rightarrow> Exit c s1
             | Raise e s1 \<Rightarrow> Raise e s1))"

subsection \<open>Configuring the rewrite table\<close>

text \<open>\<^verbatim>\<open>str.split(sep)\<close> for a separator of one character.\<close>

fun split_str :: "char \<Rightarrow> string \<Rightarrow> string list" where
  "split_str sep [] = [[]]"
| "split_str sep (c # cs) =
     (if c = sep then [] # split_str sep cs
      else (c # hd (split_str sep cs)) # tl (split_str sep cs))"

text \<open>
  The values the body of \<^verbatim>\<open>parse_rewrite_signum\<close> computes with are Python objects:
  \<^verbatim>\<open>str.split\<close> yields strings, and the body compares them with integer literals.
  In Python 3 an ordering comparison of a \<^verbatim>\<open>str\<close> with an \<^verbatim>\<open>int\<close> raises
  \<^verbatim>\<open>TypeError\<close>.
\<close>

datatype pyval = PyInt int | PyStr string

definition py_lt_int :: "pyval \<Rightarrow> int \<Rightarrow> error + bool" where
  "py_lt_int x n = (case x of PyInt i \<Rightarrow> Inr (i < n) | PyStr a \<Rightarrow> Inl TypeError)"

definition py_gt_int :: "pyval \<Rightarrow> int \<Rightarrow> error + bool" where
  "py_gt_int x n = (case x of PyInt i \<Rightarrow> Inr (i > n) | PyStr a \<Rightarrow> Inl TypeError)"

text \<open>\<^verbatim>\<open>a or b\<close>: \<open>b\<close> is evaluated only when \<open>a\<close> is false.\<close>

definition py_or :: "error + bool \<Rightarrow> error + bool \<Rightarrow> error + bool" where
  "py_or a b = (case a of Inl e \<Rightarrow> Inl e | Inr t \<Rightarrow> if t then Inr True else b)"

text \<open>
  Lines 78 to 80, the body of the \<^verbatim>\<open>try\<close> after the unpacking, with the
  \<^verbatim>\<open>except ValueError\<close> of lines 81 and 82 around it. The table \<open>SIGMAP\<close> is keyed by
  integers; the store of line 80 is reached only with values that have passed the four
  comparisons, which no string does.
\<close>

definition rewrite_pair :: "pyval \<Rightarrow> pyval \<Rightarrow> state \<Rightarrow> unit result" where
  "rewrite_pair signum replacement s =
     (case py_or (py_lt_int signum 1)
             (py_or (py_gt_int signum MAXSIG)
                (py_or (py_lt_int replacement 0) (py_gt_int replacement MAXSIG))) of
        Inl e \<Rightarrow>
          if e = ValueError then
            Return () (logger_call ERROR ''Incorrect rewrite format'' [] s)
          else Raise e s
      | Inr out_of_range \<Rightarrow>
          if out_of_range then
            Return () (logger_call ERROR ''Incorrect rewrite format'' [] s)
          else
            (case (signum, replacement) of
               (PyInt k, PyInt v) \<Rightarrow> Return () (s\<lparr>SIGMAP := (SIGMAP s)(k \<mapsto> v)\<rparr>)
             | _ \<Rightarrow> Raise TypeError s))"

text \<open>
  \<^verbatim>\<open>parse_rewrite_signum\<close> (lines 75 to 82). Unpacking a list that does not have
  exactly two elements raises \<^verbatim>\<open>ValueError\<close>, which the handler catches.
\<close>

definition parse_rewrite_signum :: "string \<Rightarrow> state \<Rightarrow> unit result" where
  "parse_rewrite_signum arg s =
     (case split_str (CHR '':'') arg of
        [signum, replacement] \<Rightarrow> rewrite_pair (PyStr signum) (PyStr replacement) s
      | _ \<Rightarrow> Return () (logger_call ERROR ''Incorrect rewrite format'' [] s))"

text \<open>\<^verbatim>\<open>set_rewrite_to_sigstop_if_not_defined\<close> (lines 85 to 87).\<close>

definition set_rewrite_to_sigstop_if_not_defined :: "int \<Rightarrow> state \<Rightarrow> unit result" where
  "set_rewrite_to_sigstop_if_not_defined signum s =
     (case SIGMAP s signum of
        None \<Rightarrow> Raise KeyError s
      | Some v \<Rightarrow>
          if v = - 1 then Return () (s\<lparr>SIGMAP := (SIGMAP s)(signum \<mapsto> SIGSTOP)\<rparr>)
          else Return () s)"

subsection \<open>The main loop\<close>

text \<open>
  How a run of the process ends, or where it stands: \<open>Blocked\<close> in
  \<^verbatim>\<open>signal.sigwait\<close> with no signal pending, \<open>Returned\<close> from \<^verbatim>\<open>run\<close> with a value
  that \<^verbatim>\<open>main\<close> hands to \<^verbatim>\<open>sys.exit\<close>, \<open>Replaced\<close> by the program that
  \<^verbatim>\<open>os.execvp\<close> starts (the child's branch), left through \<^verbatim>\<open>sys.exit\<close>, or ended by
  an exception that nothing catches.
\<close>

datatype process =
  Blocked state | Returned int state | Replaced state | SysExit int state
  | Uncaught error state

text \<open>
  The \<^verbatim>\<open>while True\<close> loop of lines 127 to 129, run on the signals that
  \<^verbatim>\<open>signal.sigwait\<close> delivers, in order.
\<close>

fun proxy_loop :: "int list \<Rightarrow> state \<Rightarrow> process" where
  "proxy_loop [] s = Blocked s"
| "proxy_loop (signum # signums) s =
     (case handle_signal signum s of
        Return u s1 \<Rightarrow> proxy_loop signums s1
      | Exit c s1 \<Rightarrow> SysExit c s1
      | Raise e s1 \<Rightarrow> Uncaught e s1)"

text \<open>
  \<^verbatim>\<open>run\<close> (lines 101 to 129), in the parent. The answers of the operating system are
  arguments: what \<^verbatim>\<open>fcntl.ioctl\<close> returns, whether \<^verbatim>\<open>os.getsid(0) == os.getpid()\<close>,
  what \<^verbatim>\<open>os.fork\<close> returns and the signals that arrive. \<^verbatim>\<open>register_signals\<close> installs
  handlers and touches nothing of the state. The function has no \<^verbatim>\<open>global\<close> statement,
  so the name \<^verbatim>\<open>child_pid\<close> it assigns in line 115 is a local variable of \<^verbatim>\<open>run\<close>:
  the module-level \<^verbatim>\<open>child_pid\<close> that \<^verbatim>\<open>forward_signal\<close> and \<^verbatim>\<open>handle_signal\<close> read
  keeps its value. The stores into \<^verbatim>\<open>IGNORED_SIGMAP\<close> mutate the module's dictionary;
  the value 1 they store is read only as a truth value, and is \<open>True\<close> here.
  \<^verbatim>\<open>os.execvp\<close> does not return, so line 124 is not reached.
\<close>

definition run :: "int \<Rightarrow> bool \<Rightarrow> int \<Rightarrow> int list \<Rightarrow> state \<Rightarrow> process" where
  "run ioctl_ret session_leader fork_ret signums s =
     (let s1 =
        (if ioctl_ret = - 1 then
           logger_call WARNING ''Unable to detach from controlling tty'' [] s
         else if session_leader then
           (logger_call INFO
              ''Detached from controlling tty, ignoring the first SIGHUP and SIGCONT we receive''
              [] s)
             \<lparr>IGNORED_SIGMAP := (IGNORED_SIGMAP s)(SIGHUP \<mapsto> True, SIGCONT \<mapsto> True)\<rparr>
         else
           logger_call INFO ''Detached from controlling tty, but was not session leader.''
             [] s);
        local_child_pid = fork_ret
      in
        if local_child_pid < 0 then
          Returned 1 (logger_call ERROR ''Unable to fork. Exiting.'' [] s1)
        else if local_child_pid = 0 then Replaced s1
        else
          proxy_loop signums
            (logger_call INFO ''Child spawned with PID {child_pid}.'' [local_child_pid] s1))"

text \<open>The target the forwarder computes in line 36.\<close>

definition forward_target :: "state \<Rightarrow> int" where
  "forward_target s = (if use_setsid s \<noteq> 0 then - child_pid s else child_pid s)"

text \<open>A wait status of a descendant that has terminated.\<close>

fun terminated :: "wstatus \<Rightarrow> bool" where
  "terminated (Exited c) = True"
| "terminated (Signaled g) = True"
| "terminated (Stopped g) = False"

text \<open>
  The globals and the answers of the operating system that a call leaves as they are.
\<close>

definition same_globals :: "state \<Rightarrow> state \<Rightarrow> bool" where
  "same_globals s s' =
     (SIGMAP s' = SIGMAP s \<and> IGNORED_SIGMAP s' = IGNORED_SIGMAP s \<and>
      child_pid s' = child_pid s \<and> use_setsid s' = use_setsid s \<and> getpid s' = getpid s
      \<and> living s' = living s)"

section \<open>Properties\<close>

subsection \<open>What the calls leave unchanged\<close>

lemma same_globals_refl: "same_globals s s"
  by (simp add: same_globals_def)

lemma same_globals_trans: "same_globals s t \<Longrightarrow> same_globals t u \<Longrightarrow> same_globals s u"
  by (simp add: same_globals_def)

lemma same_globals_logger_call: "same_globals s (logger_call l f a s)"
  by (simp add: same_globals_def logger_call_def)

lemma same_globals_os_kill: "same_globals s (os_kill p g s)"
  by (simp add: same_globals_def os_kill_def)

lemma forward_target_same: "same_globals s t \<Longrightarrow> forward_target t = forward_target s"
  by (simp add: same_globals_def forward_target_def)

lemma translate_signal_Return:
  "\<exists>r s1. translate_signal n s = Return r s1 \<and> same_globals s s1 \<and> kills s1 = kills s
     \<and> zombies s1 = zombies s
     \<and> r = (case SIGMAP s n of None \<Rightarrow> n | Some v \<Rightarrow> if v > 0 then v else n)"
  by (auto simp: translate_signal_def same_globals_def logger_call_def split: option.splits)

lemma forward_signal_Return:
  "\<exists>s1. forward_signal n s = Return () s1 \<and> same_globals s s1 \<and> zombies s1 = zombies s \<and>
     kills s1 = kills s @
       (let r = (case SIGMAP s n of None \<Rightarrow> n | Some v \<Rightarrow> if v > 0 then v else n)
        in if r \<noteq> 0 then [(forward_target s, r)] else [])"
proof -
  obtain r s1 where t: "translate_signal n s = Return r s1" and g: "same_globals s s1"
    and k: "kills s1 = kills s" and z: "zombies s1 = zombies s"
    and r: "r = (case SIGMAP s n of None \<Rightarrow> n | Some v \<Rightarrow> if v > 0 then v else n)"
    using translate_signal_Return [of n s] by blast
  from g have ft: "forward_target s1 = forward_target s"
    by (rule forward_target_same)
  show ?thesis
    using t g k z r ft
    by (auto simp: forward_signal_def same_globals_def logger_call_def os_kill_def
        forward_target_def Let_def)
qed

lemma derive_exit_status_final:
  "same_globals s (final (derive_exit_status p st s)) \<and>
   kills (final (derive_exit_status p st s)) = kills s \<and>
   zombies (final (derive_exit_status p st s)) = zombies s"
  by (cases st) (simp_all add: derive_exit_status_def same_globals_def logger_call_def)

lemma os_waitpid_final:
  "same_globals s (final (os_waitpid s)) \<and> kills (final (os_waitpid s)) = kills s"
  by (simp add: os_waitpid_def same_globals_def split: list.splits)

lemma reap_loop_final:
  "same_globals s (final (reap_loop p st s)) \<and>
   (kills (final (reap_loop p st s)) = kills s \<or>
    (\<exists>g. kills (final (reap_loop p st s)) = kills s @ [(forward_target s, g)]))"
proof (induction p st s rule: reap_loop.induct)
  case (1 killed_pid status s)
  show ?case
  proof (cases "killed_pid > 0")
    case False
    then show ?thesis by (simp add: same_globals_refl)
  next
    case pos: True
    show ?thesis
    proof (cases "derive_exit_status killed_pid status s")
      case (Exit c s1)
      with pos derive_exit_status_final [of s killed_pid status] show ?thesis by simp
    next
      case (Raise e s1)
      with pos derive_exit_status_final [of s killed_pid status] show ?thesis by simp
    next
      case (Return exit_status s1)
      with derive_exit_status_final [of s killed_pid status]
      have g1: "same_globals s s1" and k1: "kills s1 = kills s" by simp_all
      show ?thesis
      proof (cases "killed_pid = child_pid s1")
        case True
        obtain s2 where f: "forward_signal SIGTERM s1 = Return () s2"
          and g2: "same_globals s1 s2"
          and k2: "kills s2 = kills s1 @
             (let r = (case SIGMAP s1 SIGTERM of None \<Rightarrow> SIGTERM | Some v \<Rightarrow> if v > 0 then v else SIGTERM)
              in if r \<noteq> 0 then [(forward_target s1, r)] else [])"
          using forward_signal_Return [of SIGTERM s1] by blast
        have "same_globals s (logger_call INFO ''Child exited with status {exit_status}. Goodbye.'' [exit_status] s2)"
          using g1 g2 same_globals_logger_call same_globals_trans by blast
        moreover have "forward_target s1 = forward_target s"
          using g1 by (rule forward_target_same)
        ultimately show ?thesis
          using pos Return True f k1 k2
          by (auto simp: logger_call_def Let_def)
      next
        case ne: False
        show ?thesis
        proof (cases "os_waitpid s1")
          case (Exit c s2)
          with pos Return ne os_waitpid_final [of s1] g1 k1 show ?thesis
            by (auto intro: same_globals_trans)
        next
          case (Raise e s2)
          with pos Return ne os_waitpid_final [of s1] g1 k1 show ?thesis
            by (auto intro: same_globals_trans)
        next
          case w: (Return z s2)
          with os_waitpid_final [of s1] have g2: "same_globals s1 s2" and k2: "kills s2 = kills s1"
            by simp_all
          from g1 g2 have g: "same_globals s s2" by (rule same_globals_trans)
          note ih = "1.IH" [OF pos Return ne w]
          have ft: "forward_target s2 = forward_target s"
            using g by (rule forward_target_same)
          have eq: "reap_loop killed_pid status s = reap_loop (fst z) (snd z) s2"
            using pos Return ne w by simp
          show ?thesis
            unfolding eq using ih g k1 k2 ft
            by (auto intro: same_globals_trans)
        qed
      qed
    qed
  qed
qed

subsection \<open>The reap loop on descendants other than the tracked child\<close>

lemma reap_loop_stop: "\<not> 0 < p \<Longrightarrow> reap_loop p st s = Return () s"
  by simp

lemma reap_loop_drains:
  "zombies s = zs \<Longrightarrow> living s \<Longrightarrow> 0 < p \<Longrightarrow> p \<noteq> child_pid s \<Longrightarrow> terminated st \<Longrightarrow>
   list_all (\<lambda>z. 0 < fst z \<and> fst z \<noteq> child_pid s \<and> terminated (snd z)) zs \<Longrightarrow>
   \<exists>s'. reap_loop p st s = Return () s' \<and> zombies s' = [] \<and> kills s' = kills s \<and>
        same_globals s s' \<and> length (logged s') = length (logged s) + 1 + length zs"
proof (induction zs arbitrary: p st s)
  case Nil
  obtain x f a where d: "derive_exit_status p st s = Return x (logger_call INFO f a s)"
    using \<open>terminated st\<close> by (cases st) (simp_all add: derive_exit_status_def)
  let ?s1 = "logger_call INFO f a s"
  have w: "os_waitpid ?s1 = Return (0, Exited 0) ?s1"
    using Nil.prems by (simp add: os_waitpid_def logger_call_def)
  have "reap_loop p st s = reap_loop 0 (Exited 0) ?s1"
    apply (subst reap_loop.simps)
    using Nil.prems d w
    by (simp add: logger_call_def del: reap_loop.simps)
  then have "reap_loop p st s = Return () ?s1"
    by (simp add: reap_loop_stop)
  with Nil.prems show ?case
    by (simp add: logger_call_def same_globals_def)
next
  case (Cons z zs)
  obtain x f a where d: "derive_exit_status p st s = Return x (logger_call INFO f a s)"
    using \<open>terminated st\<close> by (cases st) (simp_all add: derive_exit_status_def)
  let ?s1 = "logger_call INFO f a s"
  let ?s2 = "?s1\<lparr>zombies := zs\<rparr>"
  have w: "os_waitpid ?s1 = Return z ?s2"
    using Cons.prems(1) by (simp add: os_waitpid_def logger_call_def)
  have step: "reap_loop p st s = reap_loop (fst z) (snd z) ?s2"
    apply (subst reap_loop.simps)
    using Cons.prems d w
    by (simp add: logger_call_def del: reap_loop.simps)
  have "\<exists>s'. reap_loop (fst z) (snd z) ?s2 = Return () s' \<and> zombies s' = [] \<and>
      kills s' = kills ?s2 \<and> same_globals ?s2 s' \<and>
      length (logged s') = length (logged ?s2) + 1 + length zs"
    using Cons.prems by (intro Cons.IH) (simp_all add: logger_call_def)
  then show ?case
    unfolding step
    by (auto simp: logger_call_def same_globals_def)
qed

subsection \<open>What the signal handler does to the globals and the signals it sends\<close>

lemma handle_signal_globals:
  "SIGMAP (final (handle_signal n s)) = SIGMAP s \<and>
   child_pid (final (handle_signal n s)) = child_pid s \<and>
   use_setsid (final (handle_signal n s)) = use_setsid s \<and>
   (IGNORED_SIGMAP (final (handle_signal n s)) = IGNORED_SIGMAP s \<or>
    IGNORED_SIGMAP (final (handle_signal n s)) = (IGNORED_SIGMAP s)(n \<mapsto> False))"
proof -
  let ?s = "logger_call INFO ''Received signal {signum}'' [n] s"
  have i: "same_globals s ?s"
    by (rule same_globals_logger_call)
  have "IGNORED_SIGMAP s n = None \<or> IGNORED_SIGMAP s n = Some True
      \<or> IGNORED_SIGMAP s n = Some False"
    by (cases "IGNORED_SIGMAP s n") auto
  then consider (missing) "IGNORED_SIGMAP s n = None" | (armed) "IGNORED_SIGMAP s n = Some True"
    | (chld) "IGNORED_SIGMAP s n = Some False" "n = SIGCHLD"
    | (fwd) "IGNORED_SIGMAP s n = Some False" "n \<noteq> SIGCHLD"
    by fastforce
  then show ?thesis
  proof cases
    case missing
    then show ?thesis by (simp add: handle_signal_def logger_call_def)
  next
    case armed
    then show ?thesis by (simp add: handle_signal_def logger_call_def)
  next
    case chld
    have "same_globals ?s (final (handle_signal n s))"
    proof (cases "os_waitpid ?s")
      case (Return z s1)
      with os_waitpid_final [of ?s] have g: "same_globals ?s s1" by simp
      have "handle_signal n s = reap_loop (fst z) (snd z) s1"
        using chld Return by (simp add: handle_signal_def logger_call_def del: reap_loop.simps)
      with reap_loop_final [of s1 "fst z" "snd z"] g show ?thesis
        by (auto intro: same_globals_trans)
    next
      case (Exit c s1)
      with chld os_waitpid_final [of ?s] show ?thesis
        by (simp add: handle_signal_def logger_call_def)
    next
      case (Raise e s1)
      with chld os_waitpid_final [of ?s] show ?thesis
        by (simp add: handle_signal_def logger_call_def)
    qed
    with i show ?thesis by (simp add: same_globals_def)
  next
    case fwd
    obtain s1 where f: "forward_signal n ?s = Return () s1" and g: "same_globals ?s s1"
      using forward_signal_Return [of n ?s] by blast
    from fwd f have "same_globals s1 (final (handle_signal n s))"
      by (simp add: handle_signal_def logger_call_def os_kill_def same_globals_def)
    with i g show ?thesis by (simp add: same_globals_def)
  qed
qed

lemma handle_signal_flags:
  "IGNORED_SIGMAP (final (handle_signal n s)) k = Some True \<Longrightarrow> IGNORED_SIGMAP s k = Some True"
  using handle_signal_globals [of n s] by (auto split: if_splits)

lemma handle_signal_child_pid:
  "child_pid (final (handle_signal n s)) = child_pid s"
  using handle_signal_globals [of n s] by simp

lemma handle_signal_kills:
  "kills (final (handle_signal n s)) = kills s \<or>
   (\<exists>g. kills (final (handle_signal n s)) = kills s @ [(forward_target s, g)]) \<or>
   (n \<in> {SIGTSTP, SIGTTOU, SIGTTIN} \<and>
    (\<exists>g. kills (final (handle_signal n s)) = kills s @ [(forward_target s, g), (getpid s, SIGSTOP)]))"
proof -
  let ?s = "logger_call INFO ''Received signal {signum}'' [n] s"
  have k: "kills ?s = kills s" and ft: "forward_target ?s = forward_target s"
    and gp: "getpid ?s = getpid s"
    by (simp_all add: logger_call_def forward_target_def)
  have "IGNORED_SIGMAP s n = None \<or> IGNORED_SIGMAP s n = Some True
      \<or> IGNORED_SIGMAP s n = Some False"
    by (cases "IGNORED_SIGMAP s n") auto
  then consider (missing) "IGNORED_SIGMAP s n = None" | (armed) "IGNORED_SIGMAP s n = Some True"
    | (chld) "IGNORED_SIGMAP s n = Some False" "n = SIGCHLD"
    | (fwd) "IGNORED_SIGMAP s n = Some False" "n \<noteq> SIGCHLD"
    by fastforce
  then show ?thesis
  proof cases
    case missing
    then show ?thesis by (simp add: handle_signal_def logger_call_def)
  next
    case armed
    then show ?thesis by (simp add: handle_signal_def logger_call_def)
  next
    case chld
    show ?thesis
    proof (cases "os_waitpid ?s")
      case (Return z s1)
      with os_waitpid_final [of ?s] have g: "same_globals ?s s1" and k1: "kills s1 = kills ?s"
        by simp_all
      have ft1: "forward_target s1 = forward_target s"
        using forward_target_same [OF g] ft by simp
      have "handle_signal n s = reap_loop (fst z) (snd z) s1"
        using chld Return by (simp add: handle_signal_def logger_call_def del: reap_loop.simps)
      with reap_loop_final [of s1 "fst z" "snd z"] k k1 ft1 show ?thesis
        by auto
    next
      case (Exit c s1)
      with chld os_waitpid_final [of ?s] k show ?thesis
        by (simp add: handle_signal_def logger_call_def)
    next
      case (Raise e s1)
      with chld os_waitpid_final [of ?s] k show ?thesis
        by (simp add: handle_signal_def logger_call_def)
    qed
  next
    case fwd
    obtain s1 where f: "forward_signal n ?s = Return () s1" and g: "same_globals ?s s1"
      and k1: "kills s1 = kills ?s @
         (let r = (case SIGMAP ?s n of None \<Rightarrow> n | Some v \<Rightarrow> if v > 0 then v else n)
          in if r \<noteq> 0 then [(forward_target ?s, r)] else [])"
      using forward_signal_Return [of n ?s] by blast
    have gp1: "getpid s1 = getpid s"
      using g gp by (simp add: same_globals_def)
    show ?thesis
    proof (cases "n \<in> {SIGTSTP, SIGTTOU, SIGTTIN}")
      case False
      with fwd f have "handle_signal n s = Return () s1"
        by (simp add: handle_signal_def logger_call_def)
      with k1 k ft show ?thesis
        by (auto simp: Let_def)
    next
      case True
      with fwd f have "handle_signal n s = Return ()
          (os_kill (getpid s1) SIGSTOP (logger_call INFO ''Suspending self due to TTY signal.'' [] s1))"
        by (auto simp: handle_signal_def logger_call_def)
      moreover from True have "n > 0" by (auto simp: signal_defs)
      then have "(case SIGMAP ?s n of None \<Rightarrow> n | Some v \<Rightarrow> if v > 0 then v else n) \<noteq> 0"
        by (auto split: option.splits)
      ultimately show ?thesis
        using True k1 k ft gp1
        by (auto simp: Let_def os_kill_def logger_call_def)
    qed
  qed
qed

lemma handle_signal_forwards:
  assumes "IGNORED_SIGMAP s n = Some False" and "n \<noteq> SIGCHLD" and "n \<noteq> 0"
  shows "\<exists>s1. forward_signal n (logger_call INFO ''Received signal {signum}'' [n] s)
            = Return () s1 \<and>
          same_globals s s1 \<and>
          kills s1 = kills s @ [(forward_target s,
            case SIGMAP s n of None \<Rightarrow> n | Some v \<Rightarrow> if v > 0 then v else n)] \<and>
          handle_signal n s =
            (if n \<in> {SIGTSTP, SIGTTOU, SIGTTIN} then
               Return () (os_kill (getpid s) SIGSTOP
                 (logger_call INFO ''Suspending self due to TTY signal.'' [] s1))
             else Return () s1)"
proof -
  let ?s = "logger_call INFO ''Received signal {signum}'' [n] s"
  have k: "kills ?s = kills s" and ft: "forward_target ?s = forward_target s"
    and m: "SIGMAP ?s = SIGMAP s" and g0: "same_globals s ?s"
    by (simp_all add: logger_call_def forward_target_def same_globals_def)
  obtain s1 where f: "forward_signal n ?s = Return () s1" and g: "same_globals ?s s1"
    and k1: "kills s1 = kills ?s @
       (let r = (case SIGMAP ?s n of None \<Rightarrow> n | Some v \<Rightarrow> if v > 0 then v else n)
        in if r \<noteq> 0 then [(forward_target ?s, r)] else [])"
    using forward_signal_Return [of n ?s] by blast
  from \<open>n \<noteq> 0\<close>
  have nz: "(case SIGMAP s n of None \<Rightarrow> n | Some v \<Rightarrow> if v > 0 then v else n) \<noteq> 0"
    by (auto split: option.splits)
  have gp: "getpid s1 = getpid s"
    using g g0 by (simp add: same_globals_def)
  have "same_globals s s1"
    using g0 g by (rule same_globals_trans)
  moreover have "kills s1 = kills s @ [(forward_target s,
            case SIGMAP s n of None \<Rightarrow> n | Some v \<Rightarrow> if v > 0 then v else n)]"
    using k1 k ft m nz by (simp add: Let_def)
  moreover have "handle_signal n s =
            (if n \<in> {SIGTSTP, SIGTTOU, SIGTTIN} then
               Return () (os_kill (getpid s) SIGSTOP
                 (logger_call INFO ''Suspending self due to TTY signal.'' [] s1))
             else Return () s1)"
    using assms(1,2) f gp by (auto simp: handle_signal_def logger_call_def)
  ultimately show ?thesis using f by blast
qed

subsection \<open>No exit while the module-level pid is not positive\<close>

lemma reap_loop_no_exit:
  "child_pid s \<le> 0 \<Longrightarrow> reap_loop p st s \<noteq> Exit c s'"
proof (induction p st s rule: reap_loop.induct)
  case (1 killed_pid status s)
  show ?case
  proof (cases "killed_pid > 0")
    case False
    then show ?thesis by simp
  next
    case pos: True
    show ?thesis
    proof (cases "derive_exit_status killed_pid status s")
      case (Exit c1 s1)
      then show ?thesis
        by (cases status) (simp_all add: derive_exit_status_def)
    next
      case (Raise e s1)
      with pos show ?thesis by simp
    next
      case (Return exit_status s1)
      with derive_exit_status_final [of s killed_pid status]
      have g1: "same_globals s s1" by simp
      with "1.prems" have c1: "child_pid s1 \<le> 0"
        by (simp add: same_globals_def)
      with pos have ne: "killed_pid \<noteq> child_pid s1" by simp
      show ?thesis
      proof (cases "os_waitpid s1")
        case (Exit c2 s2)
        then show ?thesis
          by (simp add: os_waitpid_def split: list.splits if_splits)
      next
        case (Raise e s2)
        with pos Return ne show ?thesis by simp
      next
        case w: (Return z s2)
        with os_waitpid_final [of s1] have "same_globals s1 s2" by simp
        with c1 have c2: "child_pid s2 \<le> 0"
          by (simp add: same_globals_def)
        have "reap_loop killed_pid status s = reap_loop (fst z) (snd z) s2"
          using pos Return ne w by simp
        with "1.IH" [OF pos Return ne w c2] show ?thesis by simp
      qed
    qed
  qed
qed

lemma handle_signal_no_exit:
  "child_pid s \<le> 0 \<Longrightarrow> handle_signal n s \<noteq> Exit c s'"
proof -
  assume a: "child_pid s \<le> 0"
  let ?s = "logger_call INFO ''Received signal {signum}'' [n] s"
  have "IGNORED_SIGMAP s n = None \<or> IGNORED_SIGMAP s n = Some True
      \<or> IGNORED_SIGMAP s n = Some False"
    by (cases "IGNORED_SIGMAP s n") auto
  then consider (missing) "IGNORED_SIGMAP s n = None" | (armed) "IGNORED_SIGMAP s n = Some True"
    | (chld) "IGNORED_SIGMAP s n = Some False" "n = SIGCHLD"
    | (fwd) "IGNORED_SIGMAP s n = Some False" "n \<noteq> SIGCHLD"
    by fastforce
  then show ?thesis
  proof cases
    case missing
    then show ?thesis by (simp add: handle_signal_def logger_call_def)
  next
    case armed
    then show ?thesis by (simp add: handle_signal_def logger_call_def)
  next
    case chld
    show ?thesis
    proof (cases "os_waitpid ?s")
      case (Return z s2)
      with os_waitpid_final [of ?s] a have "child_pid s2 \<le> 0"
        by (simp add: same_globals_def logger_call_def)
      then have "reap_loop (fst z) (snd z) s2 \<noteq> Exit c s'"
        by (rule reap_loop_no_exit)
      moreover have "handle_signal n s = reap_loop (fst z) (snd z) s2"
        using chld Return by (simp add: handle_signal_def logger_call_def del: reap_loop.simps)
      ultimately show ?thesis by simp
    next
      case (Exit c2 s2)
      then show ?thesis
        by (simp add: os_waitpid_def split: list.splits if_splits)
    next
      case (Raise e s2)
      with chld show ?thesis
        by (simp add: handle_signal_def logger_call_def)
    qed
  next
    case fwd
    obtain s1 where f: "forward_signal n ?s = Return () s1"
      using forward_signal_Return [of n ?s] by blast
    with fwd show ?thesis
      by (simp add: handle_signal_def logger_call_def)
  qed
qed

lemma proxy_loop_no_exit:
  "child_pid s \<le> 0 \<Longrightarrow> proxy_loop signums s \<noteq> SysExit c s'"
proof (induction signums arbitrary: s)
  case Nil
  then show ?case by simp
next
  case (Cons n signums)
  show ?case
  proof (cases "handle_signal n s")
    case (Return u s1)
    with handle_signal_child_pid [of n s] Cons.prems have "child_pid s1 \<le> 0" by simp
    with Cons.IH Return show ?thesis by simp
  next
    case (Exit c1 s1)
    with handle_signal_no_exit [OF Cons.prems] show ?thesis by blast
  next
    case (Raise e s1)
    then show ?thesis by simp
  qed
qed

subsection \<open>The rewrite table\<close>

text \<open>
  Claim C5: a signal number that has no explicit rewrite entry (its entry is the
  initial \<open>-1\<close>, or the table has no such key) is translated to itself, and nothing is
  logged; in particular the table the module starts with passes every signal through.
\<close>

theorem translate_signal_passthrough:
  "(SIGMAP s signum = None \<or> SIGMAP s signum = Some (- 1) \<longrightarrow>
      translate_signal signum s = Return signum s) \<and>
   translate_signal signum (initial me zs alive) = Return signum (initial me zs alive)"
  by (auto simp: translate_signal_def initial_def)

text \<open>Signal 5 in the initial table.\<close>

theorem translate_signal_passthrough_witness:
  "SIGMAP (initial 1 [] True) 5 = Some (- 1) \<and>
   translate_signal 5 (initial 1 [] True) = Return 5 (initial 1 [] True)"
proof -
  have h: "SIGMAP (initial 1 [] True) 5 = Some (- 1)"
    by (simp add: initial_def MAXSIG_def)
  with translate_signal_passthrough [of "initial 1 [] True" 5] show ?thesis
    by simp
qed

text \<open>
  Claim C10: \<^verbatim>\<open>translate_signal\<close> returns on every integer: the subscript
  \<^verbatim>\<open>SIGMAP[signum]\<close> is evaluated only behind the guard, so its \<^verbatim>\<open>KeyError\<close> is never
  raised. A number that is not a key of the table, negative or above \<open>MAXSIG\<close>, comes
  back unchanged, and the call leaves the table as it was.
\<close>

theorem translate_signal_total:
  "(\<exists>r s'. translate_signal signum s = Return r s' \<and> SIGMAP s' = SIGMAP s) \<and>
   (SIGMAP s signum = None \<longrightarrow> translate_signal signum s = Return signum s)"
  by (auto simp: translate_signal_def logger_call_def split: option.splits)

text \<open>The numbers \<open>-1\<close> (as in \<^verbatim>\<open>test_translate_signal\<close>) and 32, neither a key.\<close>

theorem translate_signal_total_witness:
  "SIGMAP (initial 1 [] True) (- 1) = None \<and>
   translate_signal (- 1) (initial 1 [] True) = Return (- 1) (initial 1 [] True) \<and>
   SIGMAP (initial 1 [] True) 32 = None \<and>
   translate_signal 32 (initial 1 [] True) = Return 32 (initial 1 [] True)"
proof -
  have h1: "SIGMAP (initial 1 [] True) (- 1) = None"
    by (simp add: initial_def MAXSIG_def)
  have h2: "SIGMAP (initial 1 [] True) 32 = None"
    by (simp add: initial_def MAXSIG_def)
  from h1 h2 translate_signal_total [of "- 1" "initial 1 [] True"]
    translate_signal_total [of 32 "initial 1 [] True"]
  show ?thesis by simp
qed

text \<open>
  Claim C9: \<^verbatim>\<open>set_rewrite_to_sigstop_if_not_defined\<close> maps the signal to
  \<^verbatim>\<open>SIGSTOP\<close> when its entry is the initial \<open>-1\<close>, leaves the state as it is when the
  entry is anything else, and a second application after a first changes nothing.
\<close>

theorem set_rewrite_to_sigstop_if_not_defined_once:
  "(SIGMAP s signum = Some (- 1) \<longrightarrow>
      set_rewrite_to_sigstop_if_not_defined signum s =
        Return () (s\<lparr>SIGMAP := (SIGMAP s)(signum \<mapsto> SIGSTOP)\<rparr>)) \<and>
   (\<forall>v. SIGMAP s signum = Some v \<and> v \<noteq> - 1 \<longrightarrow>
      set_rewrite_to_sigstop_if_not_defined signum s = Return () s) \<and>
   (\<forall>s1. set_rewrite_to_sigstop_if_not_defined signum s = Return () s1 \<longrightarrow>
      set_rewrite_to_sigstop_if_not_defined signum s1 = Return () s1)"
  by (auto simp: set_rewrite_to_sigstop_if_not_defined_def SIGSTOP_def
      split: option.splits if_splits)

text \<open>Signal 20 in the initial table, applied twice.\<close>

theorem set_rewrite_to_sigstop_if_not_defined_once_witness:
  "SIGMAP (initial 1 [] True) 20 = Some (- 1) \<and>
   set_rewrite_to_sigstop_if_not_defined 20 (initial 1 [] True) =
     Return () ((initial 1 [] True)\<lparr>SIGMAP := (SIGMAP (initial 1 [] True))(20 \<mapsto> 19)\<rparr>) \<and>
   set_rewrite_to_sigstop_if_not_defined 20
     ((initial 1 [] True)\<lparr>SIGMAP := (SIGMAP (initial 1 [] True))(20 \<mapsto> 19)\<rparr>) =
     Return () ((initial 1 [] True)\<lparr>SIGMAP := (SIGMAP (initial 1 [] True))(20 \<mapsto> 19)\<rparr>)"
proof -
  have h: "SIGMAP (initial 1 [] True) 20 = Some (- 1)"
    by (simp add: initial_def MAXSIG_def)
  from h set_rewrite_to_sigstop_if_not_defined_once [of "initial 1 [] True" 20]
  have one: "set_rewrite_to_sigstop_if_not_defined 20 (initial 1 [] True) =
     Return () ((initial 1 [] True)\<lparr>SIGMAP := (SIGMAP (initial 1 [] True))(20 \<mapsto> 19)\<rparr>)"
    by (simp add: SIGSTOP_def)
  with set_rewrite_to_sigstop_if_not_defined_once [of "initial 1 [] True" 20]
  have two: "set_rewrite_to_sigstop_if_not_defined 20
     ((initial 1 [] True)\<lparr>SIGMAP := (SIGMAP (initial 1 [] True))(20 \<mapsto> 19)\<rparr>) =
     Return () ((initial 1 [] True)\<lparr>SIGMAP := (SIGMAP (initial 1 [] True))(20 \<mapsto> 19)\<rparr>)"
    by blast
  from h one two show ?thesis by blast
qed

text \<open>
  Claim C3: what \<^verbatim>\<open>parse_rewrite_signum\<close> does with the out-of-range pairs
  \<^verbatim>\<open>"0:5"\<close> and \<^verbatim>\<open>"32:1"\<close>, and with the pair \<^verbatim>\<open>"5:6"\<close> of
  \<^verbatim>\<open>test_rewrite_parsing\<close>: the comparison of a string with 1 raises \<^verbatim>\<open>TypeError\<close>,
  which \<^verbatim>\<open>except ValueError\<close> does not catch. The state, the table and the log with it,
  is as before; and on no argument at all does the function change the table.
\<close>

theorem parse_rewrite_signum_type_error:
  "parse_rewrite_signum ''0:5'' s = Raise TypeError s \<and>
   parse_rewrite_signum ''32:1'' s = Raise TypeError s \<and>
   parse_rewrite_signum ''5:6'' s = Raise TypeError s \<and>
   SIGMAP (final (parse_rewrite_signum arg s)) = SIGMAP s"
  by (simp add: parse_rewrite_signum_def rewrite_pair_def py_or_def py_lt_int_def
      logger_call_def split: list.splits)

text \<open>
  Claim C2: with the entry of signal 5 set to 0, \<^verbatim>\<open>translate_signal(5)\<close>
  answers 5, since the guard \<^verbatim>\<open>> 0\<close> rejects the entry, and \<^verbatim>\<open>forward_signal(5)\<close>
  calls \<^verbatim>\<open>os.kill\<close> with signal 5.
\<close>

theorem forward_signal_zero_mapping:
  "translate_signal 5 ((initial 1 [] True)\<lparr>SIGMAP := (SIGMAP (initial 1 [] True))(5 \<mapsto> 0)\<rparr>)
     = Return 5 ((initial 1 [] True)\<lparr>SIGMAP := (SIGMAP (initial 1 [] True))(5 \<mapsto> 0)\<rparr>) \<and>
   (\<exists>s'. forward_signal 5
       ((initial 1 [] True)\<lparr>SIGMAP := (SIGMAP (initial 1 [] True))(5 \<mapsto> 0)\<rparr>) = Return () s'
     \<and> kills s' = [(1, 5)])"
  by (simp add: forward_signal_def translate_signal_def initial_def logger_call_def
      os_kill_def)

subsection \<open>The signal handler\<close>

text \<open>
  Claim C4: a \<^verbatim>\<open>SIGCHLD\<close> finds N dead descendants pending, each with a positive pid
  other than \<^verbatim>\<open>child_pid\<close> and a status of a terminated process, while some child
  is still alive. Then \<^verbatim>\<open>handle_signal\<close> returns with no zombie left, having logged
  the signal and each of the N descendants, sent no signal and changed no global; the
  main loop is back in \<^verbatim>\<open>signal.sigwait\<close>.
\<close>

theorem reaper_drains_all:
  assumes "IGNORED_SIGMAP s SIGCHLD = Some False"
    and "living s"
    and "list_all (\<lambda>z. 0 < fst z \<and> fst z \<noteq> child_pid s \<and> terminated (snd z)) (zombies s)"
  shows "\<exists>s'. handle_signal SIGCHLD s = Return () s' \<and> proxy_loop [SIGCHLD] s = Blocked s' \<and>
           zombies s' = [] \<and> kills s' = kills s \<and> same_globals s s' \<and>
           length (logged s') = length (logged s) + 1 + length (zombies s)"
proof -
  let ?s = "logger_call INFO ''Received signal {signum}'' [SIGCHLD] s"
  have h: "\<exists>s'. handle_signal SIGCHLD s = Return () s' \<and>
           zombies s' = [] \<and> kills s' = kills s \<and> same_globals s s' \<and>
           length (logged s') = length (logged s) + 1 + length (zombies s)"
  proof (cases "zombies s")
    case Nil
    with assms show ?thesis
      by (simp add: handle_signal_def os_waitpid_def logger_call_def same_globals_def)
  next
    case (Cons z zs)
    let ?s1 = "?s\<lparr>zombies := zs\<rparr>"
    have eq: "handle_signal SIGCHLD s = reap_loop (fst z) (snd z) ?s1"
      using assms(1) Cons
      by (simp add: handle_signal_def os_waitpid_def logger_call_def del: reap_loop.simps)
    have "\<exists>s'. reap_loop (fst z) (snd z) ?s1 = Return () s' \<and> zombies s' = [] \<and>
        kills s' = kills ?s1 \<and> same_globals ?s1 s' \<and>
        length (logged s') = length (logged ?s1) + 1 + length zs"
      using assms Cons by (intro reap_loop_drains) (simp_all add: logger_call_def)
    then show ?thesis
      unfolding eq using Cons
      by (auto simp: logger_call_def same_globals_def)
  qed
  then show ?thesis by auto
qed

text \<open>Three dead descendants, none of them the tracked child 100.\<close>

theorem reaper_drains_all_witness:
  "\<exists>s'. handle_signal SIGCHLD
          ((initial 1 [(101, Exited 0), (102, Signaled 9), (103, Exited 3)] True)
             \<lparr>child_pid := 100\<rparr>) = Return () s' \<and>
        proxy_loop [SIGCHLD]
          ((initial 1 [(101, Exited 0), (102, Signaled 9), (103, Exited 3)] True)
             \<lparr>child_pid := 100\<rparr>) = Blocked s' \<and>
        zombies s' = [] \<and> kills s' = [] \<and> length (logged s') = 4"
proof -
  let ?s = "(initial 1 [(101, Exited 0), (102, Signaled 9), (103, Exited 3)] True)
             \<lparr>child_pid := 100\<rparr>"
  have 1: "IGNORED_SIGMAP ?s SIGCHLD = Some False"
    by (simp add: initial_def MAXSIG_def SIGCHLD_def)
  have 2: "living ?s"
    by (simp add: initial_def)
  have 3: "list_all (\<lambda>z. 0 < fst z \<and> fst z \<noteq> child_pid ?s \<and> terminated (snd z)) (zombies ?s)"
    by (simp add: initial_def)
  from reaper_drains_all [OF 1 2 3] show ?thesis
    by (auto simp: initial_def)
qed

text \<open>
  Claim C6: with the flag of \<^verbatim>\<open>SIGHUP\<close> (or of \<^verbatim>\<open>SIGCONT\<close>) armed, the first such
  signal sends nothing and clears the flag; the second is forwarded, translated, to the
  forwarder's target, and the flag stays cleared. No call of \<^verbatim>\<open>handle_signal\<close>, on any
  signal and in any state, arms a flag: one that is set afterwards was set before.
\<close>

theorem ignored_once_flag:
  "((signum = SIGHUP \<or> signum = SIGCONT) \<and> IGNORED_SIGMAP s signum = Some True \<longrightarrow>
      (\<exists>s1 s2.
         handle_signal signum s = Return () s1 \<and>
         kills s1 = kills s \<and>
         IGNORED_SIGMAP s1 = (IGNORED_SIGMAP s)(signum \<mapsto> False) \<and>
         handle_signal signum s1 = Return () s2 \<and>
         kills s2 = kills s @
           [(forward_target s,
             case SIGMAP s signum of None \<Rightarrow> signum | Some v \<Rightarrow> if v > 0 then v else signum)] \<and>
         IGNORED_SIGMAP s2 = IGNORED_SIGMAP s1)) \<and>
   (\<forall>n t k. IGNORED_SIGMAP (final (handle_signal n t)) k = Some True \<longrightarrow>
      IGNORED_SIGMAP t k = Some True)"
proof (intro conjI impI allI)
  assume a: "(signum = SIGHUP \<or> signum = SIGCONT) \<and> IGNORED_SIGMAP s signum = Some True"
  let ?s1 = "(logger_call INFO ''Ignoring tty hand-off signal {signum}'' [signum]
       (logger_call INFO ''Received signal {signum}'' [signum] s))
       \<lparr>IGNORED_SIGMAP := (IGNORED_SIGMAP s)(signum \<mapsto> False)\<rparr>"
  from a have h1: "handle_signal signum s = Return () ?s1"
    by (simp add: handle_signal_def logger_call_def)
  have p: "kills ?s1 = kills s" "IGNORED_SIGMAP ?s1 = (IGNORED_SIGMAP s)(signum \<mapsto> False)"
    "forward_target ?s1 = forward_target s" "SIGMAP ?s1 = SIGMAP s"
    by (simp_all add: logger_call_def forward_target_def)
  from a have n: "signum \<noteq> SIGCHLD" "signum \<noteq> 0" "signum \<notin> {SIGTSTP, SIGTTOU, SIGTTIN}"
    by (auto simp: signal_defs)
  have "IGNORED_SIGMAP ?s1 signum = Some False"
    by simp
  from handle_signal_forwards [OF this n(1,2)] n(3) p
  obtain s2 where "handle_signal signum ?s1 = Return () s2"
    and "kills s2 = kills s @
           [(forward_target s,
             case SIGMAP s signum of None \<Rightarrow> signum | Some v \<Rightarrow> if v > 0 then v else signum)]"
    and "same_globals ?s1 s2"
    by auto
  with h1 p show "\<exists>s1 s2.
         handle_signal signum s = Return () s1 \<and>
         kills s1 = kills s \<and>
         IGNORED_SIGMAP s1 = (IGNORED_SIGMAP s)(signum \<mapsto> False) \<and>
         handle_signal signum s1 = Return () s2 \<and>
         kills s2 = kills s @
           [(forward_target s,
             case SIGMAP s signum of None \<Rightarrow> signum | Some v \<Rightarrow> if v > 0 then v else signum)] \<and>
         IGNORED_SIGMAP s2 = IGNORED_SIGMAP s1"
    by (auto simp: same_globals_def)
next
  fix n t k
  assume "IGNORED_SIGMAP (final (handle_signal n t)) k = Some True"
  then show "IGNORED_SIGMAP t k = Some True"
    by (rule handle_signal_flags)
qed

text \<open>Two \<^verbatim>\<open>SIGHUP\<close> after the flag was armed in the initial state.\<close>

theorem ignored_once_flag_witness:
  "\<exists>s1 s2.
     handle_signal SIGHUP
       ((initial 1 [] True)\<lparr>IGNORED_SIGMAP := (IGNORED_SIGMAP (initial 1 [] True))(SIGHUP \<mapsto> True)\<rparr>)
       = Return () s1 \<and>
     kills s1 = [] \<and> IGNORED_SIGMAP s1 SIGHUP = Some False \<and>
     handle_signal SIGHUP s1 = Return () s2 \<and> kills s2 = [(1, SIGHUP)] \<and>
     IGNORED_SIGMAP s2 SIGHUP = Some False"
proof -
  let ?s = "(initial 1 [] True)
      \<lparr>IGNORED_SIGMAP := (IGNORED_SIGMAP (initial 1 [] True))(SIGHUP \<mapsto> True)\<rparr>"
  have h: "(SIGHUP = SIGHUP \<or> SIGHUP = SIGCONT) \<and> IGNORED_SIGMAP ?s SIGHUP = Some True"
    by simp
  have v: "kills ?s = []" "forward_target ?s = 1"
    "(case SIGMAP ?s SIGHUP of None \<Rightarrow> SIGHUP | Some v \<Rightarrow> if v > 0 then v else SIGHUP) = SIGHUP"
    by (simp_all add: initial_def forward_target_def MAXSIG_def SIGHUP_def)
  from h ignored_once_flag [of SIGHUP ?s]
  obtain s1 s2 where "handle_signal SIGHUP ?s = Return () s1"
    and "kills s1 = kills ?s"
    and "IGNORED_SIGMAP s1 = (IGNORED_SIGMAP ?s)(SIGHUP \<mapsto> False)"
    and "handle_signal SIGHUP s1 = Return () s2"
    and "kills s2 = kills ?s @ [(forward_target ?s,
        case SIGMAP ?s SIGHUP of None \<Rightarrow> SIGHUP | Some v \<Rightarrow> if v > 0 then v else SIGHUP)]"
    and "IGNORED_SIGMAP s2 = IGNORED_SIGMAP s1"
    by blast
  with v show ?thesis
    by (intro exI [of _ s1] exI [of _ s2]) simp
qed

text \<open>
  Claim C8: a signal that is one of \<^verbatim>\<open>SIGTSTP\<close>, \<^verbatim>\<open>SIGTTOU\<close>, \<^verbatim>\<open>SIGTTIN\<close> and is
  not swallowed is forwarded (translated, to the forwarder's target) and then
  \<^verbatim>\<open>SIGSTOP\<close> is sent to \<^verbatim>\<open>os.getpid()\<close>; the test is on the signal as received, not
  on its translation. For any other signal the handler is the forwarder alone where it
  forwards, and whatever branch it takes, the only signal it sends is the forwarder's.
\<close>

theorem handle_signal_tty_stop:
  "(signum \<in> {SIGTSTP, SIGTTOU, SIGTTIN} \<and> IGNORED_SIGMAP s signum = Some False \<longrightarrow>
      (\<exists>s'. handle_signal signum s = Return () s' \<and>
         kills s' = kills s @
           [(forward_target s,
             case SIGMAP s signum of None \<Rightarrow> signum | Some v \<Rightarrow> if v > 0 then v else signum),
            (getpid s, SIGSTOP)])) \<and>
   (signum \<notin> {SIGTSTP, SIGTTOU, SIGTTIN} \<longrightarrow>
      (IGNORED_SIGMAP s signum = Some False \<and> signum \<noteq> SIGCHLD \<longrightarrow>
         handle_signal signum s =
           forward_signal signum (logger_call INFO ''Received signal {signum}'' [signum] s)) \<and>
      (kills (final (handle_signal signum s)) = kills s \<or>
       (\<exists>g. kills (final (handle_signal signum s)) = kills s @ [(forward_target s, g)])))"
proof (intro conjI impI)
  assume a: "signum \<in> {SIGTSTP, SIGTTOU, SIGTTIN} \<and> IGNORED_SIGMAP s signum = Some False"
  then have "signum \<noteq> SIGCHLD" "signum \<noteq> 0"
    by (auto simp: signal_defs)
  with a handle_signal_forwards [of s signum]
  show "\<exists>s'. handle_signal signum s = Return () s' \<and>
         kills s' = kills s @
           [(forward_target s,
             case SIGMAP s signum of None \<Rightarrow> signum | Some v \<Rightarrow> if v > 0 then v else signum),
            (getpid s, SIGSTOP)]"
    by (auto simp: os_kill_def logger_call_def)
next
  assume "signum \<notin> {SIGTSTP, SIGTTOU, SIGTTIN}"
    and "IGNORED_SIGMAP s signum = Some False \<and> signum \<noteq> SIGCHLD"
  then show "handle_signal signum s =
           forward_signal signum (logger_call INFO ''Received signal {signum}'' [signum] s)"
    by (auto simp: handle_signal_def logger_call_def split: result.splits)
next
  assume "signum \<notin> {SIGTSTP, SIGTTOU, SIGTTIN}"
  with handle_signal_kills [of signum s]
  show "kills (final (handle_signal signum s)) = kills s \<or>
       (\<exists>g. kills (final (handle_signal signum s)) = kills s @ [(forward_target s, g)])"
    by blast
qed

text \<open>\<^verbatim>\<open>SIGTSTP\<close> and \<^verbatim>\<open>SIGTERM\<close> in the initial state of process 7.\<close>

theorem handle_signal_tty_stop_witness:
  "(\<exists>s'. handle_signal SIGTSTP (initial 7 [] True) = Return () s' \<and>
      kills s' = [(1, SIGTSTP), (7, SIGSTOP)]) \<and>
   (\<exists>s'. handle_signal SIGTERM (initial 7 [] True) = Return () s' \<and>
      kills s' = [(1, SIGTERM)])"
proof -
  let ?s = "initial 7 [] True"
  have 1: "SIGTSTP \<in> {SIGTSTP, SIGTTOU, SIGTTIN} \<and> IGNORED_SIGMAP ?s SIGTSTP = Some False"
    by (simp add: initial_def MAXSIG_def signal_defs)
  have 2: "SIGTERM \<notin> {SIGTSTP, SIGTTOU, SIGTTIN}"
    "IGNORED_SIGMAP ?s SIGTERM = Some False \<and> SIGTERM \<noteq> SIGCHLD"
    by (simp_all add: initial_def MAXSIG_def signal_defs)
  have f: "\<exists>s'. forward_signal SIGTERM
      (logger_call INFO ''Received signal {signum}'' [SIGTERM] ?s) = Return () s' \<and>
      kills s' = [(1, SIGTERM)]"
    by (simp add: forward_signal_def translate_signal_def initial_def MAXSIG_def signal_defs
        logger_call_def os_kill_def)
  from 1 handle_signal_tty_stop [of SIGTSTP ?s]
  have "\<exists>s'. handle_signal SIGTSTP ?s = Return () s' \<and>
      kills s' = [(1, SIGTSTP), (7, SIGSTOP)]"
    by (simp add: initial_def MAXSIG_def signal_defs forward_target_def)
  moreover from 2 f handle_signal_tty_stop [of SIGTERM ?s]
  have "\<exists>s'. handle_signal SIGTERM ?s = Return () s' \<and> kills s' = [(1, SIGTERM)]"
    by simp
  ultimately show ?thesis by blast
qed

subsection \<open>The main loop\<close>

text \<open>
  Claim C1: \<^verbatim>\<open>run\<close> started from the module's initial state never leaves through
  \<^verbatim>\<open>sys.exit\<close>, whatever the operating system answers and whichever signals arrive:
  the pid of a reaped descendant is compared with the module-level \<^verbatim>\<open>child_pid\<close>, which
  \<^verbatim>\<open>run\<close> leaves at \<open>-1\<close>. On the runs of the claim, \<^verbatim>\<open>run\<close> forks the child 100,
  the child dies and \<^verbatim>\<open>SIGCHLD\<close> arrives: the child is reaped, and then, with no child
  left, the next \<^verbatim>\<open>os.waitpid\<close> raises \<^verbatim>\<open>ChildProcessError\<close>; with another child
  alive the loop waits for the next signal.
\<close>

theorem run_child_exit_status_lost:
  "(\<forall>ioctl_ret leader fork_ret signums me zs alive c s'.
      run ioctl_ret leader fork_ret signums (initial me zs alive) \<noteq> SysExit c s') \<and>
   (\<exists>s'. run 0 False 100 [SIGCHLD] (initial 1 [(100, Exited 7)] False)
      = Uncaught ChildProcessError s') \<and>
   (\<exists>s'. run 0 False 100 [SIGCHLD] (initial 1 [(100, Signaled 9)] True) = Blocked s')"
proof (intro conjI allI)
  fix ioctl_ret :: int and leader :: bool and fork_ret :: int and signums :: "int list"
    and me :: int and zs :: "(int \<times> wstatus) list" and alive :: bool and c :: int
    and s' :: state
  have "proxy_loop signums t \<noteq> SysExit c s'" if "child_pid t = - 1" for t
    using that by (intro proxy_loop_no_exit) simp
  then show "run ioctl_ret leader fork_ret signums (initial me zs alive) \<noteq> SysExit c s'"
    by (simp add: run_def Let_def initial_def logger_call_def)
next
  show "\<exists>s'. run 0 False 100 [SIGCHLD] (initial 1 [(100, Exited 7)] False)
      = Uncaught ChildProcessError s'"
    by (simp add: run_def handle_signal_def initial_def MAXSIG_def signal_defs logger_call_def
        os_waitpid_def derive_exit_status_def)
next
  show "\<exists>s'. run 0 False 100 [SIGCHLD] (initial 1 [(100, Signaled 9)] True) = Blocked s'"
    by (simp add: run_def handle_signal_def initial_def MAXSIG_def signal_defs logger_call_def
        os_waitpid_def derive_exit_status_def)
qed

text \<open>
  Claim C7: \<^verbatim>\<open>run\<close> forks a child, whose pid \<open>n + 1\<close> is positive, and \<^verbatim>\<open>SIGTERM\<close>
  arrives. The forwarder computes its target from the module-level \<^verbatim>\<open>child_pid\<close>, still
  \<open>-1\<close>, and calls \<^verbatim>\<open>os.kill(1, SIGTERM)\<close>, whatever the pid of the child; so it
  does for the child 100.
\<close>

theorem run_forward_target:
  "(\<exists>s'. run ioctl_ret leader (int (Suc n)) [SIGTERM] (initial me zs alive) = Blocked s' \<and>
      kills s' = [(1, SIGTERM)]) \<and>
   (\<exists>s'. run 0 False 100 [SIGTERM] (initial 1 [] True) = Blocked s' \<and>
      kills s' = [(1, SIGTERM)])"
  by (simp add: run_def handle_signal_def initial_def MAXSIG_def signal_defs logger_call_def
      forward_signal_def translate_signal_def os_kill_def)

end
